theory Spec2Isabelle
  imports Main
begin

section \<open>The application and model registry (django/core/apps/cache.py)\<close>

text \<open>
  A shallow embedding of class \<open>AppCache\<close>. The attributes of an instance are the
  fields of the record \<open>app_cache\<close>; every method takes the record and returns a result
  together with the record as the method left it, also when it raises (\<open>Raise\<close>): Python
  keeps every mutation made before an exception.
\<close>

subsection \<open>Exceptions and results\<close>

text \<open>
  The exception classes the module raises or catches. \<open>ValueError\<close> carries the set
  that \<open>set_available_apps\<close> joins into its message (the order of a joined Python set
  is not fixed); \<open>OtherException\<close> is any exception of a collaborator that is none
  of the classes named here.
\<close>

datatype exn =
    RuntimeError string
  | ValueError "string set"
  | ImportError string
  | KeyError string
  | IndexError
  | AttributeError string
  | UnavailableApp string
  | OtherException string

datatype 'a result = Ok 'a | Raise exn

fun is_ImportError :: "exn \<Rightarrow> bool" where
  "is_ImportError (ImportError _) = True"
| "is_ImportError _ = False"

fun is_KeyError :: "exn \<Rightarrow> bool" where
  "is_KeyError (KeyError _) = True"
| "is_KeyError _ = False"

subsection \<open>Strings and paths of the Python library\<close>

text \<open>
  \<open>str.lower()\<close>. A character is a code point below 256; of these the letters A to Z
  and the letters from \<open>0xC0\<close> to \<open>0xDE\<close>, the multiplication sign \<open>0xD7\<close> apart,
  have a lowercase form, 32 places later.
\<close>

definition lower_char :: "char \<Rightarrow> char" where
  "lower_char c =
     (case map_of (zip (''ABCDEFGHIJKLMNOPQRSTUVWXYZ'' @
                        [CHR 0xC0, CHR 0xC1, CHR 0xC2, CHR 0xC3, CHR 0xC4, CHR 0xC5, CHR 0xC6,
                         CHR 0xC7, CHR 0xC8, CHR 0xC9, CHR 0xCA, CHR 0xCB, CHR 0xCC, CHR 0xCD,
                         CHR 0xCE, CHR 0xCF, CHR 0xD0, CHR 0xD1, CHR 0xD2, CHR 0xD3, CHR 0xD4,
                         CHR 0xD5, CHR 0xD6, CHR 0xD8, CHR 0xD9, CHR 0xDA, CHR 0xDB, CHR 0xDC,
                         CHR 0xDD, CHR 0xDE])
                       (''abcdefghijklmnopqrstuvwxyz'' @
                        [CHR 0xE0, CHR 0xE1, CHR 0xE2, CHR 0xE3, CHR 0xE4, CHR 0xE5, CHR 0xE6,
                         CHR 0xE7, CHR 0xE8, CHR 0xE9, CHR 0xEA, CHR 0xEB, CHR 0xEC, CHR 0xED,
                         CHR 0xEE, CHR 0xEF, CHR 0xF0, CHR 0xF1, CHR 0xF2, CHR 0xF3, CHR 0xF4,
                         CHR 0xF5, CHR 0xF6, CHR 0xF8, CHR 0xF9, CHR 0xFA, CHR 0xFB, CHR 0xFC,
                         CHR 0xFD, CHR 0xFE])) c of
        Some l \<Rightarrow> l
      | None \<Rightarrow> c)"

definition lower :: "string \<Rightarrow> string" where
  "lower s = map lower_char s"

text \<open>\<open>s.rfind(c)\<close>: the index of the last occurrence of \<open>c\<close>, or \<open>-1\<close>.\<close>

definition rfind :: "char \<Rightarrow> string \<Rightarrow> int" where
  "rfind c s =
     (case dropWhile (\<lambda>x. x \<noteq> c) (rev s) of [] \<Rightarrow> - 1 | _ # r \<Rightarrow> int (length r))"

text \<open>\<open>s.rpartition(".")[2]\<close>: what follows the last dot, the whole string without one.\<close>

definition rpartition_tail :: "string \<Rightarrow> string" where
  "rpartition_tail s = rev (takeWhile (\<lambda>x. x \<noteq> CHR ''.'') (rev s))"

text \<open>\<open>s.split(".")\<close>.\<close>

fun split_dot_acc :: "string \<Rightarrow> string \<Rightarrow> string list" where
  "split_dot_acc acc [] = [rev acc]"
| "split_dot_acc acc (c # cs) =
     (if c = CHR ''.'' then rev acc # split_dot_acc [] cs else split_dot_acc (c # acc) cs)"

definition split_dot :: "string \<Rightarrow> string list" where
  "split_dot s = split_dot_acc [] s"

text \<open>
  \<open>os.path.splitext(p)[0]\<close> (posixpath): the path without its extension. The extension
  starts at the last dot of the last path component, unless only dots precede it there.
\<close>

definition splitext_root :: "string \<Rightarrow> string" where
  "splitext_root p =
     (let sepIndex = rfind CHR ''/'' p;
          dotIndex = rfind CHR ''.'' p
      in if dotIndex > sepIndex \<and>
            (\<exists>x \<in> set (take (nat (dotIndex - (sepIndex + 1))) (drop (nat (sepIndex + 1)) p)).
               x \<noteq> CHR ''.'')
         then take (nat dotIndex) p
         else p)"

subsection \<open>Ordered dictionaries\<close>

text \<open>
  An \<open>OrderedDict\<close> is an association list in insertion order. Assigning to a key that
  is present replaces its value where it stands; a new key goes to the end.
\<close>

fun od_set :: "'k \<Rightarrow> 'v \<Rightarrow> ('k \<times> 'v) list \<Rightarrow> ('k \<times> 'v) list" where
  "od_set k v [] = [(k, v)]"
| "od_set k v ((k', v') # xs) = (if k' = k then (k, v) # xs else (k', v') # od_set k v xs)"

definition od_del :: "'k \<Rightarrow> ('k \<times> 'v) list \<Rightarrow> ('k \<times> 'v) list" where
  "od_del k xs = filter (\<lambda>kv. fst kv \<noteq> k) xs"

definition od_values :: "('k \<times> 'v) list \<Rightarrow> 'v list" where
  "od_values xs = map snd xs"

definition od_keys :: "('k \<times> 'v) list \<Rightarrow> 'k list" where
  "od_keys xs = map fst xs"

subsection \<open>Models, application configurations and the registry\<close>

text \<open>
  What the registry reads of a model class: \<open>_meta.model_name\<close>, \<open>_meta.app_label\<close>,
  \<open>_deferred\<close>, the truth values of \<open>_meta.auto_created\<close> and \<open>_meta.swapped\<close>, and
  the absolute path of the file of its module,
  \<open>os.path.abspath(upath(sys.modules[model.__module__].__file__))\<close>.
\<close>

record model =
  model_name :: string
  meta_app_label :: string
  deferred :: bool
  auto_created :: bool
  swapped :: bool
  module_file :: string

text \<open>
  An \<open>AppConfig\<close>: its name and its label. Its class is defined in \<open>base.py\<close>, which
  is not among the sources; its attribute \<open>models\<close> is read through \<open>config_models\<close>
  below.
\<close>

record app_config =
  name :: string
  label :: string

type_synonym model_dict = "(string \<times> model) list"

text \<open>
  The key of the \<open>get_models\<close> cache: \<open>(app_mod, include_auto_created, include_deferred,
  only_installed, include_swapped)\<close>. A module is given by its \<open>__name__\<close>.
\<close>

type_synonym cache_key = "string option \<times> bool \<times> bool \<times> bool \<times> bool"

text \<open>
  The imports a call performs are recorded in \<open>import_log\<close>, which is not an attribute
  of the class: one \<open>AppImport\<close> for each call of \<open>AppConfig.create\<close>, one
  \<open>ModelsImport\<close> for each call of \<open>import_models\<close>, with the exception it raised.
\<close>

datatype import_event = AppImport string | ModelsImport app_config "exn option"

text \<open>
  \<open>postponed\<close> is the attribute \<open>_postponed\<close>, \<open>None\<close> while the attribute does not
  exist. \<open>available_apps\<close> is \<open>None\<close> or a set of names.
\<close>

record app_cache =
  master :: bool
  all_models :: "(string \<times> model_dict) list"
  app_configs :: "(string \<times> app_config) list"
  available_apps :: "string set option"
  apps_loaded :: bool
  models_loaded :: bool
  postponed :: "app_config list option"
  get_models_cache :: "cache_key \<Rightarrow> model list option"
  import_log :: "import_event list"

text \<open>\<open>AppCache(master)\<close>, lines 27-58.\<close>

definition init_app_cache :: "bool \<Rightarrow> app_cache" where
  "init_app_cache m =
     \<lparr> master = m, all_models = [], app_configs = [], available_apps = None,
       apps_loaded = (\<not> m), models_loaded = (\<not> m), postponed = None,
       get_models_cache = (\<lambda>_. None), import_log = [] \<rparr>"

text \<open>
  The collaborators that are not in the module: \<open>settings.INSTALLED_APPS\<close>,
  \<open>AppConfig.create\<close> and \<open>AppConfig.import_models\<close>. Importing a models module runs
  its class statements, each of which registers its model; so \<open>import_models\<close> is given
  by the registrations \<open>(app_label, model)\<close> the import makes, in order, and the
  exception it ends with, if any. It may depend on the registry, and through
  \<open>import_log\<close> on the imports made before. An import changes \<open>all_models\<close> and
  the lookup cache and no other attribute: a module that calls \<open>populate_models\<close>
  while it is imported is not followed into that call, which is studied as a call
  entered with \<open>_postponed\<close> in place.
\<close>

record env =
  INSTALLED_APPS :: "string list"
  create :: "string \<Rightarrow> exn + app_config"
  import_models :: "app_config \<Rightarrow> app_cache \<Rightarrow> (string \<times> model) list \<times> exn option"

text \<open>
  \<open>self.all_models[app_label]\<close>: \<open>all_models\<close> is a \<open>defaultdict(OrderedDict)\<close>, so
  reading a label that is not there adds it with an empty dictionary.
\<close>

definition all_models_touch :: "string \<Rightarrow> app_cache \<Rightarrow> app_cache" where
  "all_models_touch l s =
     (case map_of (all_models s) l of
        None \<Rightarrow> s\<lparr>all_models := all_models s @ [(l, [])]\<rparr>
      | Some _ \<Rightarrow> s)"

definition all_models_at :: "string \<Rightarrow> app_cache \<Rightarrow> model_dict" where
  "all_models_at l s = (case map_of (all_models s) l of None \<Rightarrow> [] | Some d \<Rightarrow> d)"

text \<open>
  Modelled from the spec: \<open>AppConfig.models\<close>, an attribute of the class in
  \<open>base.py\<close>. The spec has the models of an application imported "into the shared
  \<open>all_models[label]\<close> mapping": the attribute is that dictionary, read without
  creating it.
\<close>

definition config_models :: "app_cache \<Rightarrow> app_config \<Rightarrow> model_dict" where
  "config_models s c = all_models_at (label c) s"

subsection \<open>register_model, lines 281-299\<close>

definition register_model :: "string \<Rightarrow> model \<Rightarrow> app_cache \<Rightarrow> app_cache" where
  "register_model app_label m s0 =
     (let s = all_models_touch app_label s0;
          models = all_models_at app_label s
      in case map_of models (model_name m) of
           Some old \<Rightarrow>
             if splitext_root (module_file m) = splitext_root (module_file old) then s
             else s\<lparr>all_models := od_set app_label (od_set (model_name m) m models) (all_models s),
                    get_models_cache := (\<lambda>_. None)\<rparr>
         | None \<Rightarrow>
             s\<lparr>all_models := od_set app_label (od_set (model_name m) m models) (all_models s),
               get_models_cache := (\<lambda>_. None)\<rparr>)"

subsection \<open>populate_apps, lines 60-89\<close>

text \<open>The loop of lines 85-87.\<close>

fun create_apps :: "env \<Rightarrow> string list \<Rightarrow> app_cache \<Rightarrow> unit result \<times> app_cache" where
  "create_apps e [] s = (Ok (), s)"
| "create_apps e (app_name # rest) s =
     (let s1 = s\<lparr>import_log := import_log s @ [AppImport app_name]\<rparr>
      in case create e app_name of
           Inl x \<Rightarrow> (Raise x, s1)
         | Inr app_config \<Rightarrow>
             create_apps e rest
               (s1\<lparr>app_configs := od_set (label app_config) app_config (app_configs s1)\<rparr>))"

definition populate_apps :: "env \<Rightarrow> app_cache \<Rightarrow> unit result \<times> app_cache" where
  "populate_apps e s =
     (if apps_loaded s then (Ok (), s)
      else if app_configs s \<noteq> [] then (Raise (RuntimeError ''populate_apps() isn't reentrant''), s)
      else case create_apps e (INSTALLED_APPS e) s of
             (Raise x, s1) \<Rightarrow> (Raise x, s1)
           | (Ok _, s1) \<Rightarrow> (Ok (), s1\<lparr>apps_loaded := True\<rparr>))"

subsection \<open>populate_models, lines 91-134\<close>

text \<open>
  Lines 122-123 and their like: \<open>all_models = self.all_models[app_config.label]\<close>, then
  \<open>app_config.import_models(all_models)\<close>. The registrations of the import go through
  \<open>register_model\<close>; the call and the exception it raised are logged.
\<close>

definition import_models_call :: "env \<Rightarrow> app_config \<Rightarrow> app_cache \<Rightarrow> unit result \<times> app_cache" where
  "import_models_call e app_config s0 =
     (let s = all_models_touch (label app_config) s0;
          regs = fst (import_models e app_config s);
          x = snd (import_models e app_config s);
          s1 = fold (\<lambda>lm. register_model (fst lm) (snd lm)) regs s
      in ((case x of None \<Rightarrow> Ok () | Some ex \<Rightarrow> Raise ex),
          s1\<lparr>import_log := import_log s1 @ [ModelsImport app_config x]\<rparr>))"

text \<open>
  The first loop, lines 119-125: an \<open>ImportError\<close> appends the application to
  \<open>_postponed\<close>, any other exception leaves the loop.
\<close>

fun import_pass :: "env \<Rightarrow> app_config list \<Rightarrow> app_cache \<Rightarrow> unit result \<times> app_cache" where
  "import_pass e [] s = (Ok (), s)"
| "import_pass e (app_config # rest) s =
     (case import_models_call e app_config s of
        (Ok _, s1) \<Rightarrow> import_pass e rest s1
      | (Raise x, s1) \<Rightarrow>
          if is_ImportError x then
            (case postponed s1 of
               None \<Rightarrow> (Raise (AttributeError ''_postponed''), s1)
             | Some buf \<Rightarrow> import_pass e rest (s1\<lparr>postponed := Some (buf @ [app_config])\<rparr>))
          else (Raise x, s1))"

text \<open>The second loop, lines 128-130: nothing is caught.\<close>

fun retry_pass :: "env \<Rightarrow> app_config list \<Rightarrow> app_cache \<Rightarrow> unit result \<times> app_cache" where
  "retry_pass e [] s = (Ok (), s)"
| "retry_pass e (app_config # rest) s =
     (case import_models_call e app_config s of
        (Ok _, s1) \<Rightarrow> retry_pass e rest s1
      | (Raise x, s1) \<Rightarrow> (Raise x, s1))"

definition populate_models :: "env \<Rightarrow> app_cache \<Rightarrow> unit result \<times> app_cache" where
  "populate_models e s =
     (if models_loaded s then (Ok (), s)
      else case populate_apps e s of
        (Raise x, s1) \<Rightarrow> (Raise x, s1)
      | (Ok _, s1) \<Rightarrow>
          (let outermost = (postponed s1 = None);
               s2 = (if outermost then s1\<lparr>postponed := Some []\<rparr> else s1)
           in case import_pass e (od_values (app_configs s2)) s2 of
                (Raise x, s3) \<Rightarrow> (Raise x, s3)
              | (Ok _, s3) \<Rightarrow>
                  if outermost then
                    (case postponed s3 of
                       None \<Rightarrow> (Raise (AttributeError ''_postponed''), s3)
                     | Some buf \<Rightarrow>
                         (case retry_pass e buf s3 of
                            (Raise x, s4) \<Rightarrow> (Raise x, s4)
                          | (Ok _, s4) \<Rightarrow>
                              (case postponed s4 of
                                 None \<Rightarrow> (Raise (AttributeError ''_postponed''), s4)
                               | Some _ \<Rightarrow>
                                   (Ok (), s4\<lparr>postponed := None, models_loaded := True\<rparr>))))
                  else (Ok (), s3)))"

subsection \<open>get_app_configs, lines 145-162\<close>

text \<open>
  The call \<open>get_app_configs()\<close>, with \<open>only_with_models_module\<close> at its default
  \<open>False\<close>, as \<open>set_available_apps\<close> makes it; the generator is run to its end.
\<close>

definition get_app_configs :: "env \<Rightarrow> app_cache \<Rightarrow> app_config list result \<times> app_cache" where
  "get_app_configs e s =
     (case populate_apps e s of
        (Raise x, s1) \<Rightarrow> (Raise x, s1)
      | (Ok _, s1) \<Rightarrow>
          (Ok (filter (\<lambda>app_config.
                 \<not> (available_apps s1 \<noteq> None \<and> name app_config \<notin> the (available_apps s1)))
               (od_values (app_configs s1))), s1))"

subsection \<open>get_models, lines 190-257\<close>

text \<open>The condition of lines 247-249.\<close>

definition keep_model :: "bool \<Rightarrow> bool \<Rightarrow> bool \<Rightarrow> model \<Rightarrow> bool" where
  "keep_model include_auto_created include_deferred include_swapped m =
     ((\<not> deferred m \<or> include_deferred) \<and>
      (\<not> auto_created m \<or> include_auto_created) \<and>
      (\<not> swapped m \<or> include_swapped))"

text \<open>
  The comprehension of lines 221-224 and 253-256:
  \<open>[m for m in model_list if self.app_configs[m._meta.app_label].name in self.available_apps]\<close>.
  It raises \<open>KeyError\<close> at the first model whose label has no entry in \<open>app_configs\<close>.
\<close>

fun restrict_available :: "app_cache \<Rightarrow> string set \<Rightarrow> model list \<Rightarrow> model list result" where
  "restrict_available s A [] = Ok []"
| "restrict_available s A (m # ms) =
     (case map_of (app_configs s) (meta_app_label m) of
        None \<Rightarrow> Raise (KeyError (meta_app_label m))
      | Some app_config \<Rightarrow>
          (case restrict_available s A ms of
             Raise x \<Rightarrow> Raise x
           | Ok r \<Rightarrow> Ok (if name app_config \<in> A then m # r else r)))"

text \<open>
  Lines 218-227. \<open>None\<close> is the way into the computation below: the key is not in the
  cache, or the comprehension raised \<open>KeyError\<close>, which the same handler catches.
\<close>

definition cache_lookup :: "app_cache \<Rightarrow> cache_key \<Rightarrow> bool \<Rightarrow> model list option" where
  "cache_lookup s cache_key only_installed =
     (case get_models_cache s cache_key of
        None \<Rightarrow> None
      | Some model_list \<Rightarrow>
          (case available_apps s of
             None \<Rightarrow> Some model_list
           | Some A \<Rightarrow>
               if only_installed then
                 (case restrict_available s A model_list of
                    Raise _ \<Rightarrow> None
                  | Ok r \<Rightarrow> Some r)
               else Some model_list))"

text \<open>
  Lines 229-242. \<open>app_mod.__name__.split('.')[-2]\<close> raises \<open>IndexError\<close> on a name
  without a dot. The values of \<open>all_models\<close> are taken in insertion order.
\<close>

definition model_dicts ::
  "string option \<Rightarrow> bool \<Rightarrow> app_cache \<Rightarrow> model_dict list result \<times> app_cache" where
  "model_dicts app_mod only_installed s =
     (case app_mod of
        Some mod_name \<Rightarrow>
          (case rev (split_dot mod_name) of
             _ # app_label # _ \<Rightarrow>
               if only_installed then
                 (case map_of (app_configs s) app_label of
                    Some app_config \<Rightarrow> (Ok [config_models s app_config], s)
                  | None \<Rightarrow> (Ok [], s))
               else (Ok [all_models_at app_label s], all_models_touch app_label s)
           | _ \<Rightarrow> (Raise IndexError, s))
      | None \<Rightarrow>
          if only_installed then (Ok (map (config_models s) (od_values (app_configs s))), s)
          else (Ok (od_values (all_models s)), s))"

text \<open>Lines 243-250.\<close>

definition collect_models :: "bool \<Rightarrow> bool \<Rightarrow> bool \<Rightarrow> model_dict list \<Rightarrow> model list" where
  "collect_models include_auto_created include_deferred include_swapped dicts =
     concat (map (\<lambda>model_dict.
       filter (keep_model include_auto_created include_deferred include_swapped)
         (od_values model_dict)) dicts)"

definition get_models ::
  "env \<Rightarrow> string option \<Rightarrow> bool \<Rightarrow> bool \<Rightarrow> bool \<Rightarrow> bool \<Rightarrow> app_cache
     \<Rightarrow> model list result \<times> app_cache" where
  "get_models e app_mod include_auto_created include_deferred only_installed0 include_swapped s =
     (let only_installed = (if \<not> master s then False else only_installed0);
          cache_key = (app_mod, include_auto_created, include_deferred, only_installed,
                       include_swapped)
      in case cache_lookup s cache_key only_installed of
           Some model_list \<Rightarrow> (Ok model_list, s)
         | None \<Rightarrow>
             (case populate_models e s of
                (Raise x, s1) \<Rightarrow> (Raise x, s1)
              | (Ok _, s1) \<Rightarrow>
                  (case model_dicts app_mod only_installed s1 of
                     (Raise x, s2) \<Rightarrow> (Raise x, s2)
                   | (Ok dicts, s2) \<Rightarrow>
                       (let model_list =
                              collect_models include_auto_created include_deferred
                                include_swapped dicts;
                            s3 = s2\<lparr>get_models_cache :=
                                      (get_models_cache s2)(cache_key \<mapsto> model_list)\<rparr>
                        in case available_apps s3 of
                             None \<Rightarrow> (Ok model_list, s3)
                           | Some A \<Rightarrow>
                               if only_installed then
                                 (case restrict_available s3 A model_list of
                                    Raise x \<Rightarrow> (Raise x, s3)
                                  | Ok r \<Rightarrow> (Ok r, s3))
                               else (Ok model_list, s3)))))"

subsection \<open>get_model, lines 259-279\<close>

definition get_model ::
  "env \<Rightarrow> string \<Rightarrow> string \<Rightarrow> bool \<Rightarrow> app_cache \<Rightarrow> model option result \<times> app_cache" where
  "get_model e app_label mname only_installed0 s =
     (let only_installed = (if \<not> master s then False else only_installed0)
      in case populate_models e s of
           (Raise x, s1) \<Rightarrow> (Raise x, s1)
         | (Ok _, s1) \<Rightarrow>
             (let found = (Ok (map_of (all_models_at app_label s1) (lower mname)),
                           all_models_touch app_label s1)
              in if only_installed then
                   (case map_of (app_configs s1) app_label of
                      None \<Rightarrow> (Ok None, s1)
                    | Some app_config \<Rightarrow>
                        if available_apps s1 \<noteq> None \<and>
                           name app_config \<notin> the (available_apps s1)
                        then (Raise (UnavailableApp app_label), s1)
                        else found)
                 else found))"

subsection \<open>set_available_apps and unset_available_apps, lines 322-344\<close>

definition set_available_apps ::
  "env \<Rightarrow> string list \<Rightarrow> app_cache \<Rightarrow> unit result \<times> app_cache" where
  "set_available_apps e available0 s =
     (if available_apps s \<noteq> None
      then (Raise (RuntimeError ''set_available_apps() may be called only once in a row''), s)
      else (let available = set available0
            in case get_app_configs e s of
                 (Raise x, s1) \<Rightarrow> (Raise x, s1)
               | (Ok configs, s1) \<Rightarrow>
                   (let installed = set (map name configs)
                    in if \<not> available \<subseteq> installed
                       then (Raise (ValueError (available - installed)), s1)
                       else (Ok (), s1\<lparr>available_apps := Some available\<rparr>))))"

definition unset_available_apps :: "app_cache \<Rightarrow> app_cache" where
  "unset_available_apps s = s\<lparr>available_apps := None\<rparr>"

subsection \<open>The scoped contexts, lines 348-403\<close>

text \<open>
  A context manager runs its \<open>_begin\<close> method, then the body of the \<open>with\<close>
  statement, then its \<open>_end\<close> method in a \<open>finally\<close> clause: also when the body
  raised, whose exception goes on afterwards unless \<open>_end\<close> raises one itself. The body
  is any function on the registry.
\<close>

type_synonym body = "app_cache \<Rightarrow> unit result \<times> app_cache"

definition begin_with_app ::
  "env \<Rightarrow> string \<Rightarrow> app_cache \<Rightarrow> app_config option result \<times> app_cache" where
  "begin_with_app e app_name s0 =
     (let s = s0\<lparr>import_log := import_log s0 @ [AppImport app_name]\<rparr>
      in case create e app_name of
           Inl x \<Rightarrow> (Raise x, s)
         | Inr app_config \<Rightarrow>
             if label app_config \<in> set (od_keys (app_configs s)) then (Ok None, s)
             else (case import_models_call e app_config s of
                     (Raise x, s1) \<Rightarrow> (Raise x, s1)
                   | (Ok _, s1) \<Rightarrow>
                       (Ok (Some app_config),
                        s1\<lparr>app_configs := od_set (label app_config) app_config (app_configs s1),
                           available_apps :=
                             map_option (insert (name app_config)) (available_apps s1)\<rparr>)))"

definition end_with_app :: "app_config option \<Rightarrow> app_cache \<Rightarrow> unit result \<times> app_cache" where
  "end_with_app tok s =
     (case tok of
        None \<Rightarrow> (Ok (), s)
      | Some app_config \<Rightarrow>
          if label app_config \<notin> set (od_keys (app_configs s))
          then (Raise (KeyError (label app_config)), s)
          else (Ok (), s\<lparr>app_configs := od_del (label app_config) (app_configs s),
                         available_apps :=
                           map_option (\<lambda>A. A - {name app_config}) (available_apps s)\<rparr>))"

definition with_app :: "env \<Rightarrow> string \<Rightarrow> body \<Rightarrow> app_cache \<Rightarrow> unit result \<times> app_cache" where
  "with_app e app_name body s =
     (case begin_with_app e app_name s of
        (Raise x, s1) \<Rightarrow> (Raise x, s1)
      | (Ok tok, s1) \<Rightarrow>
          (case end_with_app tok (snd (body s1)) of
             (Raise x, s3) \<Rightarrow> (Raise x, s3)
           | (Ok _, s3) \<Rightarrow> (fst (body s1), s3)))"

definition begin_without_app :: "string \<Rightarrow> app_cache \<Rightarrow> app_config option \<times> app_cache" where
  "begin_without_app app_name s =
     (map_of (app_configs s) (rpartition_tail app_name),
      s\<lparr>app_configs := od_del (rpartition_tail app_name) (app_configs s)\<rparr>)"

definition end_without_app :: "app_config option \<Rightarrow> app_cache \<Rightarrow> app_cache" where
  "end_without_app tok s =
     (case tok of
        None \<Rightarrow> s
      | Some app_config \<Rightarrow>
          s\<lparr>app_configs := od_set (label app_config) app_config (app_configs s)\<rparr>)"

definition without_app :: "string \<Rightarrow> body \<Rightarrow> app_cache \<Rightarrow> unit result \<times> app_cache" where
  "without_app app_name body s =
     (let tok = fst (begin_without_app app_name s);
          s1 = snd (begin_without_app app_name s)
      in (fst (body s1), end_without_app tok (snd (body s1))))"

definition begin_empty :: "app_cache \<Rightarrow> (string \<times> app_config) list \<times> app_cache" where
  "begin_empty s = (app_configs s, s\<lparr>app_configs := []\<rparr>)"

definition end_empty :: "(string \<times> app_config) list \<Rightarrow> app_cache \<Rightarrow> app_cache" where
  "end_empty saved s = s\<lparr>app_configs := saved\<rparr>"

definition empty_apps :: "body \<Rightarrow> app_cache \<Rightarrow> unit result \<times> app_cache" where
  "empty_apps body s =
     (let saved = fst (begin_empty s);
          s1 = snd (begin_empty s)
      in (fst (body s1), end_empty saved (snd (body s1))))"

section \<open>Observing the calls\<close>




text \<open>
  The condition of the comprehension of lines 221-224 as a predicate on models: the
  application that owns the model, \<open>app_configs[m._meta.app_label]\<close>, has its name in
  the set. It is false for a label without an entry, where the comprehension raises.
\<close>

definition owner_available :: "app_cache \<Rightarrow> string set \<Rightarrow> model \<Rightarrow> bool" where
  "owner_available s A m =
     (case map_of (app_configs s) (meta_app_label m) of
        None \<Rightarrow> False
      | Some app_config \<Rightarrow> name app_config \<in> A)"

section \<open>Example registries\<close>

definition app_a :: app_config where
  "app_a = \<lparr> name = ''proj.a'', label = ''a'' \<rparr>"

definition app_b :: app_config where
  "app_b = \<lparr> name = ''proj.b'', label = ''b'' \<rparr>"

definition registry_ab :: app_cache where
  "registry_ab = (init_app_cache True)\<lparr> app_configs := [(''a'', app_a), (''b'', app_b)] \<rparr>"

text \<open>An environment whose collaborators always fail: nothing can be imported.\<close>

definition env_none :: env where
  "env_none = \<lparr> INSTALLED_APPS = [''proj.a'', ''proj.b''],
                create = (\<lambda>n. Inl (ImportError n)),
                import_models = (\<lambda>c s. ([], Some (ImportError (name c)))) \<rparr>"

text \<open>
  Two applications whose models modules need each other: importing the models of
  \<open>a\<close> fails with an \<open>ImportError\<close> until a model of \<open>b\<close> is registered.
\<close>

definition model_a :: model where
  "model_a = \<lparr> model_name = ''author'', meta_app_label = ''a'', deferred = False,
               auto_created = False, swapped = False, module_file = ''/srv/proj/a/models.py'' \<rparr>"

definition model_b :: model where
  "model_b = \<lparr> model_name = ''book'', meta_app_label = ''b'', deferred = False,
               auto_created = False, swapped = False, module_file = ''/srv/proj/b/models.py'' \<rparr>"

definition env_cycle :: env where
  "env_cycle = \<lparr> INSTALLED_APPS = [''proj.a'', ''proj.b''],
                 create = (\<lambda>n. Inr \<lparr> name = n, label = rpartition_tail n \<rparr>),
                 import_models = (\<lambda>c s.
                   if label c = ''a'' then
                     (if all_models_at ''b'' s = [] then ([], Some (ImportError ''proj.b.models''))
                      else ([(''a'', model_a)], None))
                   else ([(''b'', model_b)], None)) \<rparr>"

text \<open>The master registry after \<open>populate_models\<close> in that environment.\<close>

definition registry_populated :: app_cache where
  "registry_populated =
     \<lparr> master = True,
       all_models = [(''a'', [(''author'', model_a)]), (''b'', [(''book'', model_b)])],
       app_configs = [(''a'', app_a), (''b'', app_b)],
       available_apps = None, apps_loaded = True, models_loaded = True, postponed = None,
       get_models_cache = (\<lambda>_. None),
       import_log = [AppImport ''proj.a'', AppImport ''proj.b'',
                     ModelsImport app_a (Some (ImportError ''proj.b.models'')),
                     ModelsImport app_b None, ModelsImport app_a None] \<rparr>"

text \<open>
  The model \<open>author\<close> imported a second time: from the compiled file of the same module,
  and from a module in another file.
\<close>

definition model_a_pyc :: model where
  "model_a_pyc = model_a\<lparr> module_file := ''/srv/proj/a/models.pyc'' \<rparr>"

definition model_a_other :: model where
  "model_a_other = model_a\<lparr> module_file := ''/srv/other/a/models.py'' \<rparr>"

text \<open>The populated registry with \<open>set_available_apps(['proj.a'])\<close> in effect.\<close>

definition registry_only_a :: app_cache where
  "registry_only_a = registry_populated\<lparr> available_apps := Some {''proj.a''} \<rparr>"

text \<open>
  The work wrapped by a scoped context: one that returns, one that raises. Neither
  touches the registry.
\<close>

definition body_ok :: body where
  "body_ok s = (Ok (), s)"

definition body_raises :: body where
  "body_raises s = (Raise (OtherException ''boom''), s)"

text \<open>An application that is not installed, as \<open>AppConfig.create\<close> of \<open>env_cycle\<close> makes it.\<close>

definition app_c :: app_config where
  "app_c = \<lparr> name = ''proj.c'', label = ''c'' \<rparr>"




text \<open>
  The registry \<open>registry_only_a\<close> after \<open>get_models()\<close>: the list of all installed
  models is cached under the key of the default arguments.
\<close>

definition registry_only_a_cached :: app_cache where
  "registry_only_a_cached =
     registry_only_a\<lparr> get_models_cache :=
       (get_models_cache registry_only_a)
         ((None, False, False, True, False) \<mapsto> [model_a, model_b]) \<rparr>"



text \<open>
  The populated registry after \<open>get_models()\<close> and \<open>get_models(app_mod)\<close> for the
  models module of \<open>a\<close>: both lists are cached.
\<close>

definition registry_cached :: app_cache where
  "registry_cached =
     registry_populated\<lparr> get_models_cache :=
       (\<lambda>_. None)((None, False, False, True, False) \<mapsto> [model_a, model_b],
                    (Some ''proj.a.models'', False, False, True, False) \<mapsto> [model_a]) \<rparr>"



section \<open>What each method leaves unchanged\<close>

lemma all_models_touch_frame [simp]:
  "master (all_models_touch l s) = master s"
  "app_configs (all_models_touch l s) = app_configs s"
  "available_apps (all_models_touch l s) = available_apps s"
  "apps_loaded (all_models_touch l s) = apps_loaded s"
  "models_loaded (all_models_touch l s) = models_loaded s"
  "postponed (all_models_touch l s) = postponed s"
  "get_models_cache (all_models_touch l s) = get_models_cache s"
  "import_log (all_models_touch l s) = import_log s"
  by (simp_all add: all_models_touch_def split: option.splits)

lemma register_model_frame [simp]:
  "master (register_model l m s) = master s"
  "app_configs (register_model l m s) = app_configs s"
  "available_apps (register_model l m s) = available_apps s"
  "apps_loaded (register_model l m s) = apps_loaded s"
  "models_loaded (register_model l m s) = models_loaded s"
  "postponed (register_model l m s) = postponed s"
  "import_log (register_model l m s) = import_log s"
  by (simp_all add: register_model_def Let_def split: option.splits)

lemma fold_register_frame [simp]:
  "master (fold (\<lambda>lm. register_model (fst lm) (snd lm)) regs s) = master s"
  "app_configs (fold (\<lambda>lm. register_model (fst lm) (snd lm)) regs s) = app_configs s"
  "available_apps (fold (\<lambda>lm. register_model (fst lm) (snd lm)) regs s) = available_apps s"
  "apps_loaded (fold (\<lambda>lm. register_model (fst lm) (snd lm)) regs s) = apps_loaded s"
  "models_loaded (fold (\<lambda>lm. register_model (fst lm) (snd lm)) regs s) = models_loaded s"
  "postponed (fold (\<lambda>lm. register_model (fst lm) (snd lm)) regs s) = postponed s"
  "import_log (fold (\<lambda>lm. register_model (fst lm) (snd lm)) regs s) = import_log s"
  by (induction regs arbitrary: s; simp)+

lemma import_models_call_frame [simp]:
  "master (snd (import_models_call e c s)) = master s"
  "app_configs (snd (import_models_call e c s)) = app_configs s"
  "available_apps (snd (import_models_call e c s)) = available_apps s"
  "apps_loaded (snd (import_models_call e c s)) = apps_loaded s"
  "models_loaded (snd (import_models_call e c s)) = models_loaded s"
  "postponed (snd (import_models_call e c s)) = postponed s"
  by (simp_all add: import_models_call_def Let_def)

lemma import_models_call_log:
  "import_log (snd (import_models_call e c s)) =
     import_log s @ [ModelsImport c (case fst (import_models_call e c s) of
                                       Ok _ \<Rightarrow> None | Raise x \<Rightarrow> Some x)]"
  by (simp add: import_models_call_def Let_def split: option.splits)

lemma create_apps_frame [simp]:
  "master (snd (create_apps e ns s)) = master s"
  "all_models (snd (create_apps e ns s)) = all_models s"
  "available_apps (snd (create_apps e ns s)) = available_apps s"
  "apps_loaded (snd (create_apps e ns s)) = apps_loaded s"
  "models_loaded (snd (create_apps e ns s)) = models_loaded s"
  "postponed (snd (create_apps e ns s)) = postponed s"
  "get_models_cache (snd (create_apps e ns s)) = get_models_cache s"
  by (induction ns arbitrary: s; simp add: Let_def split: sum.splits)+

lemma populate_apps_frame [simp]:
  "master (snd (populate_apps e s)) = master s"
  "all_models (snd (populate_apps e s)) = all_models s"
  "available_apps (snd (populate_apps e s)) = available_apps s"
  "models_loaded (snd (populate_apps e s)) = models_loaded s"
  "postponed (snd (populate_apps e s)) = postponed s"
  "get_models_cache (snd (populate_apps e s)) = get_models_cache s"
  by (simp_all add: populate_apps_def split: prod.splits result.splits)
     (metis create_apps_frame snd_conv)+



section \<open>Evaluating the examples\<close>

lemmas example_defs =
  populate_models_def populate_apps_def env_cycle_def env_none_def init_app_cache_def
  registry_ab_def registry_populated_def app_a_def app_b_def model_a_def model_b_def
  rpartition_tail_def import_models_call_def all_models_touch_def all_models_at_def
  od_values_def od_keys_def od_del_def register_model_def splitext_root_def rfind_def Let_def



lemma lower_latin1: "lower [CHR 0xC9, CHR ''B'', CHR ''o'', CHR 0xD7, CHR ''_'', CHR 0xDE]
   = [CHR 0xE9, CHR ''b'', CHR ''o'', CHR 0xD7, CHR ''_'', CHR 0xFE]"
  by (simp add: lower_def lower_char_def)

section \<open>Ordered dictionaries and the shared model dictionaries\<close>

lemma map_of_od_set: "map_of (od_set k v xs) = (map_of xs)(k \<mapsto> v)"
  by (induction xs) (auto simp: fun_eq_iff)

lemma od_keys_od_set_present:
  "k \<in> set (od_keys xs) \<Longrightarrow> od_keys (od_set k v xs) = od_keys xs"
  by (induction xs) (force simp: od_keys_def)+

lemma od_keys_od_set_absent:
  "k \<notin> set (od_keys xs) \<Longrightarrow> od_keys (od_set k v xs) = od_keys xs @ [k]"
  by (induction xs) (auto simp: od_keys_def)

lemma all_models_at_Some:
  "map_of (all_models_at l s) n = Some old \<Longrightarrow> \<exists>d. map_of (all_models s) l = Some d"
  by (auto simp: all_models_at_def split: option.splits)

lemma all_models_touch_present:
  "map_of (all_models s) l = Some d \<Longrightarrow> all_models_touch l s = s"
  by (simp add: all_models_touch_def)

lemma all_models_at_od_set:
  "all_models_at l (s\<lparr>all_models := od_set l d (all_models s), get_models_cache := c\<rparr>) = d"
  by (simp add: all_models_at_def map_of_od_set)

lemma populate_apps_available:
  "populate_apps e s = (r, s1) \<Longrightarrow> available_apps s1 = available_apps s"
  using populate_apps_frame(3) [of e s] by simp

section \<open>The scoped contexts\<close>

lemma od_del_od_set_absent:
  "k \<notin> set (od_keys xs) \<Longrightarrow> od_del k (od_set k v xs) = xs"
  by (induction xs) (auto simp: od_keys_def od_del_def)

lemma od_set_od_del: "od_set k v (od_del k xs) = od_del k xs @ [(k, v)]"
  by (induction xs) (auto simp: od_del_def)

lemma map_of_od_del: "map_of (od_del k xs) = (map_of xs)(k := None)"
  by (induction xs) (auto simp: od_del_def fun_eq_iff)

lemma map_of_od_del_append:
  "map_of xs k = Some v \<Longrightarrow> map_of (od_del k xs @ [(k, v)]) = map_of xs"
  by (auto simp: map_of_od_del fun_eq_iff map_add_def split: option.splits)

lemma without_app_restores:
  assumes lab: "\<forall>kc \<in> set (app_configs s). label (snd kc) = fst kc"
      and fr: "\<forall>t. app_configs (snd (body t)) = app_configs t"
  shows "app_configs (snd (without_app app_name body s)) =
           (case map_of (app_configs s) (rpartition_tail app_name) of
              None \<Rightarrow> app_configs s
            | Some c \<Rightarrow> od_del (rpartition_tail app_name) (app_configs s)
                          @ [(rpartition_tail app_name, c)])"
proof (cases "map_of (app_configs s) (rpartition_tail app_name)")
  case None
  then have "rpartition_tail app_name \<notin> fst ` set (app_configs s)"
    by (simp add: map_of_eq_None_iff)
  then have "od_del (rpartition_tail app_name) (app_configs s) = app_configs s"
    by (force simp: od_del_def filter_id_conv)
  with None show ?thesis
    by (simp add: without_app_def begin_without_app_def end_without_app_def Let_def fr)
next
  case (Some c)
  then have "(rpartition_tail app_name, c) \<in> set (app_configs s)"
    by (rule map_of_SomeD)
  with lab have "label c = rpartition_tail app_name" by fastforce
  with Some show ?thesis
    by (simp add: without_app_def begin_without_app_def end_without_app_def Let_def fr
          od_set_od_del)
qed

lemma import_models_call_app_configs:
  "import_models_call e c s = (r, s1) \<Longrightarrow>
     app_configs s1 = app_configs s \<and> available_apps s1 = available_apps s"
  using import_models_call_frame(2,3) [of e c s] by simp

section \<open>What the population passes keep\<close>

lemma import_models_call_keeps:
  "import_models_call e c s = (r, s1) \<Longrightarrow>
     master s1 = master s \<and> app_configs s1 = app_configs s
     \<and> available_apps s1 = available_apps s \<and> apps_loaded s1 = apps_loaded s
     \<and> models_loaded s1 = models_loaded s \<and> postponed s1 = postponed s
     \<and> length (import_log s) < length (import_log s1)"
  using import_models_call_frame [of e c s] import_models_call_log [of e c s] by simp

lemma import_pass_keeps:
  "import_pass e cs s = (r, s') \<Longrightarrow>
     master s' = master s \<and> app_configs s' = app_configs s
     \<and> available_apps s' = available_apps s \<and> apps_loaded s' = apps_loaded s
     \<and> models_loaded s' = models_loaded s
     \<and> (postponed s \<noteq> None \<longrightarrow> postponed s' \<noteq> None)
     \<and> length (import_log s) \<le> length (import_log s')
     \<and> (cs \<noteq> [] \<longrightarrow> length (import_log s) < length (import_log s'))"
proof (induction cs arbitrary: s)
  case Nil
  then show ?case by simp
next
  case (Cons c cs)
  obtain r1 s1 where c1: "import_models_call e c s = (r1, s1)"
    by (cases "import_models_call e c s")
  note k = import_models_call_keeps [OF c1]
  show ?case
  proof (cases r1)
    case (Ok u)
    with Cons.prems c1 have "import_pass e cs s1 = (r, s')" by simp
    from Cons.IH [OF this] k show ?thesis by simp
  next
    case (Raise x)
    show ?thesis
    proof (cases "is_ImportError x")
      case False
      with Cons.prems c1 Raise have "s' = s1" by simp
      with k show ?thesis by simp
    next
      case True
      show ?thesis
      proof (cases "postponed s1")
        case None
        with Cons.prems c1 Raise True have "s' = s1" by simp
        with k show ?thesis by simp
      next
        case (Some buf)
        with Cons.prems c1 Raise True
        have "import_pass e cs (s1\<lparr>postponed := Some (buf @ [c])\<rparr>) = (r, s')" by simp
        from Cons.IH [OF this] k show ?thesis by simp
      qed
    qed
  qed
qed

lemma retry_pass_keeps:
  "retry_pass e cs s = (r, s') \<Longrightarrow>
     master s' = master s \<and> app_configs s' = app_configs s
     \<and> available_apps s' = available_apps s \<and> apps_loaded s' = apps_loaded s
     \<and> models_loaded s' = models_loaded s \<and> postponed s' = postponed s"
proof (induction cs arbitrary: s)
  case Nil
  then show ?case by simp
next
  case (Cons c cs)
  obtain r1 s1 where c1: "import_models_call e c s = (r1, s1)"
    by (cases "import_models_call e c s")
  note k = import_models_call_keeps [OF c1]
  show ?case
  proof (cases r1)
    case (Ok u)
    with Cons.prems c1 have "retry_pass e cs s1 = (r, s')" by simp
    from Cons.IH [OF this] k show ?thesis by simp
  next
    case (Raise x)
    with Cons.prems c1 have "s' = s1" by simp
    with k show ?thesis by simp
  qed
qed

lemma populate_apps_keeps:
  "populate_apps e s = (r, s1) \<Longrightarrow>
     master s1 = master s \<and> available_apps s1 = available_apps s
     \<and> models_loaded s1 = models_loaded s \<and> postponed s1 = postponed s"
  using populate_apps_frame [of e s] by simp

lemma populate_models_keeps:
  assumes "populate_models e s = (r, s')"
  shows "master s' = master s \<and> available_apps s' = available_apps s"
proof (cases "models_loaded s")
  case True
  with assms show ?thesis by (simp add: populate_models_def)
next
  case False
  obtain r1 s1 where a: "populate_apps e s = (r1, s1)" by (cases "populate_apps e s")
  note ka = populate_apps_keeps [OF a]
  show ?thesis
  proof (cases r1)
    case (Raise x)
    with assms False a have "s' = s1" by (simp add: populate_models_def)
    with ka show ?thesis by simp
  next
    case (Ok u)
    define s2 where "s2 = (if postponed s1 = None then s1\<lparr>postponed := Some []\<rparr> else s1)"
    have k2: "master s2 = master s \<and> available_apps s2 = available_apps s"
      using ka by (simp add: s2_def)
    obtain r3 s3 where b: "import_pass e (od_values (app_configs s2)) s2 = (r3, s3)"
      by (cases "import_pass e (od_values (app_configs s2)) s2")
    note k3 = import_pass_keeps [OF b]
    show ?thesis
    proof (cases "retry_pass e (the (postponed s3)) s3")
      case (Pair r4 s4)
      note k4 = retry_pass_keeps [OF Pair]
      from assms False a Ok b Pair k2 k3 k4 show ?thesis
        by (auto simp: populate_models_def Let_def s2_def
                 split: result.splits option.splits if_splits)
    qed
  qed
qed




section \<open>Where get_models takes its models from\<close>

lemma model_dicts_all_models:
  "all_models t = all_models s \<Longrightarrow>
     fst (model_dicts app_mod False t) = fst (model_dicts app_mod False s)"
  by (auto simp: model_dicts_def all_models_at_def split: option.splits list.splits)

section \<open>The filter by available applications\<close>

lemma restrict_available_cong:
  "app_configs s = app_configs t \<Longrightarrow> restrict_available s A ms = restrict_available t A ms"
  by (induction ms) (auto split: option.splits)

lemma restrict_available_filter:
  "restrict_available s A ms = Ok r \<Longrightarrow> r = filter (owner_available s A) ms"
  by (induction ms arbitrary: r)
     (auto simp: owner_available_def split: option.splits result.splits)

lemma restrict_available_known:
  "\<forall>m \<in> set ms. map_of (app_configs s) (meta_app_label m) \<noteq> None \<Longrightarrow>
     restrict_available s A ms = Ok (filter (owner_available s A) ms)"
  by (induction ms) (auto simp: owner_available_def split: option.splits)

lemma restrict_available_upd [simp]:
  "restrict_available (s\<lparr>available_apps := av\<rparr>) A ms = restrict_available s A ms"
  "restrict_available (s\<lparr>get_models_cache := c\<rparr>) A ms = restrict_available s A ms"
  by (rule restrict_available_cong, simp)+

lemma owner_available_upd [simp]:
  "owner_available (s\<lparr>available_apps := av\<rparr>) A = owner_available s A"
  "owner_available (s\<lparr>get_models_cache := c\<rparr>) A = owner_available s A"
  by (simp_all add: owner_available_def fun_eq_iff)

lemma model_dicts_installed:
  "model_dicts app_mod True s =
     (case app_mod of
        None \<Rightarrow> (Ok (map (config_models s) (map snd (app_configs s))), s)
      | Some mod_name \<Rightarrow>
          (case rev (split_dot mod_name) of
             _ # label_of_mod # _ \<Rightarrow>
               (Ok (case map_of (app_configs s) label_of_mod of
                      Some c \<Rightarrow> [config_models s c] | None \<Rightarrow> []), s)
           | _ \<Rightarrow> (Raise IndexError, s)))"
  by (auto simp: model_dicts_def od_values_def split: option.splits list.splits)

lemma get_models_hit:
  assumes "master s" and "get_models_cache s (app_mod, iac, idf, True, isw) = Some u"
  shows "(available_apps s = None \<longrightarrow>
            get_models e app_mod iac idf True isw s = (Ok u, s))
       \<and> (\<forall>A r. available_apps s = Some A \<and> restrict_available s A u = Ok r \<longrightarrow>
            get_models e app_mod iac idf True isw s = (Ok r, s))"
  using assms by (auto simp: get_models_def cache_lookup_def Let_def)

lemma get_models_installed_core:
  assumes m: "master s"
      and g: "get_models e app_mod iac idf True isw s = (Ok l, s')"
  shows "\<exists>u. get_models_cache s' (app_mod, iac, idf, True, isw) = Some u
           \<and> available_apps s' = available_apps s \<and> master s'
           \<and> (s' = s \<or>
               (\<exists>s1. populate_models e s = (Ok (), s1)
                  \<and> s' = s1\<lparr>get_models_cache :=
                             (get_models_cache s1)((app_mod, iac, idf, True, isw) \<mapsto> u)\<rparr>
                  \<and> Ok u =
                      (case app_mod of
                         None \<Rightarrow>
                           Ok (concat (map (\<lambda>c. filter (keep_model iac idf isw)
                                                  (map snd (config_models s1 c)))
                                        (map snd (app_configs s1))))
                       | Some mod_name \<Rightarrow>
                           (case rev (split_dot mod_name) of
                              _ # label_of_mod # _ \<Rightarrow>
                                Ok (case map_of (app_configs s1) label_of_mod of
                                      Some c \<Rightarrow> filter (keep_model iac idf isw)
                                                 (map snd (config_models s1 c))
                                    | None \<Rightarrow> [])
                            | _ \<Rightarrow> Raise IndexError))))
           \<and> (case available_apps s of
                None \<Rightarrow> l = u
              | Some A \<Rightarrow> restrict_available s' A u = Ok l)"
proof (cases "cache_lookup s (app_mod, iac, idf, True, isw) True")
  case (Some ml)
  with m g have "s' = s" and "l = ml" by (simp_all add: get_models_def Let_def)
  with Some m show ?thesis
    by (auto simp: cache_lookup_def split: option.splits result.splits)
next
  case None
  obtain r1 s1 where p: "populate_models e s = (r1, s1)" by (cases "populate_models e s")
  note k1 = populate_models_keeps [OF p]
  from m g None p have r1: "r1 = Ok ()"
    by (cases r1) (auto simp: get_models_def Let_def)
  define u where "u = collect_models iac idf isw
                        (case fst (model_dicts app_mod True s1) of Ok d \<Rightarrow> d | Raise x \<Rightarrow> [])"
  have md: "snd (model_dicts app_mod True s1) = s1"
    by (simp add: model_dicts_installed split: option.splits list.splits)
  obtain r2 where d: "model_dicts app_mod True s1 = (r2, s1)"
    using md by (cases "model_dicts app_mod True s1") simp
  from m g None p r1 d obtain dicts where r2: "r2 = Ok dicts"
    by (cases r2) (auto simp: get_models_def Let_def)
  have u': "u = collect_models iac idf isw dicts" using d r2 by (simp add: u_def)
  have s': "s' = s1\<lparr>get_models_cache :=
                     (get_models_cache s1)((app_mod, iac, idf, True, isw) \<mapsto> u)\<rparr>"
    using m g None p r1 d r2 u'
    by (auto simp: get_models_def Let_def split: option.splits result.splits)
  have res: "(case available_apps s of None \<Rightarrow> l = u
             | Some A \<Rightarrow> restrict_available s' A u = Ok l)"
    using m g None p r1 d r2 u' k1
    by (auto simp: get_models_def Let_def split: option.splits result.splits)
  have ex: "Ok u =
              (case app_mod of
                 None \<Rightarrow>
                   Ok (concat (map (\<lambda>c. filter (keep_model iac idf isw)
                                          (map snd (config_models s1 c)))
                                (map snd (app_configs s1))))
               | Some mod_name \<Rightarrow>
                   (case rev (split_dot mod_name) of
                      _ # label_of_mod # _ \<Rightarrow>
                        Ok (case map_of (app_configs s1) label_of_mod of
                              Some c \<Rightarrow> filter (keep_model iac idf isw)
                                         (map snd (config_models s1 c))
                            | None \<Rightarrow> [])
                    | _ \<Rightarrow> Raise IndexError))"
    using d r2 u'
    by (auto simp: model_dicts_installed collect_models_def od_values_def comp_def
             split: option.splits list.splits)
  from s' k1 m p r1 ex res show ?thesis
    by (intro exI [of _ u]) (simp split: option.splits)
qed

section \<open>Registering a new model\<close>












lemma registry_cached_reached:
  "snd (get_models env_none (Some ''proj.a.models'') False False True False
         (snd (get_models env_none None False False True False registry_populated)))
     = registry_cached"
  by (simp add: registry_cached_def example_defs get_models_def cache_lookup_def
        model_dicts_def collect_models_def keep_model_def config_models_def split_dot_def)

section \<open>The two passes of populate_models\<close>




section \<open>The claims\<close>

text \<open>
  C6. When the population body of \<open>populate_apps\<close> runs on a registry whose
  \<open>app_configs\<close> is not empty, the call raises the runtime error at once: no
  application name is resolved (the import log, like every attribute, is as before),
  \<open>app_configs\<close> is unchanged and the apps-populated flag stays false.
\<close>

theorem populate_apps_not_reentrant:
  assumes "\<not> apps_loaded s" and "app_configs s \<noteq> []"
  shows "populate_apps e s = (Raise (RuntimeError ''populate_apps() isn't reentrant''), s)
         \<and> app_configs (snd (populate_apps e s)) = app_configs s
         \<and> \<not> apps_loaded (snd (populate_apps e s))
         \<and> import_log (snd (populate_apps e s)) = import_log s"
  using assms by (simp add: populate_apps_def)

theorem populate_apps_not_reentrant_witness:
  "\<not> apps_loaded registry_ab \<and> app_configs registry_ab \<noteq> []
   \<and> populate_apps env_none registry_ab
       = (Raise (RuntimeError ''populate_apps() isn't reentrant''), registry_ab)
   \<and> import_log (snd (populate_apps env_none registry_ab)) = []"
  using populate_apps_not_reentrant [of registry_ab env_none]
  by (simp add: registry_ab_def init_app_cache_def)




text \<open>
  C2, as the code has it. When \<open>register_model(app_label, model)\<close> finds a model of the
  same name in \<open>all_models[app_label]\<close>: if the files of the two modules are equal
  without their extensions, the call returns with the registry unchanged (\<open>all_models\<close>
  and the lookup cache included) and does not raise; otherwise the new model replaces the
  earlier one under that name, at its place in the dictionary, and the lookup cache is
  cleared.
\<close>

theorem register_model_collision:
  assumes "map_of (all_models_at app_label s) (model_name m) = Some old"
  shows "(splitext_root (module_file m) = splitext_root (module_file old) \<longrightarrow>
            register_model app_label m s = s)
       \<and> (splitext_root (module_file m) \<noteq> splitext_root (module_file old) \<longrightarrow>
            map_of (all_models_at app_label (register_model app_label m s)) (model_name m) = Some m
          \<and> od_keys (all_models_at app_label (register_model app_label m s))
              = od_keys (all_models_at app_label s)
          \<and> get_models_cache (register_model app_label m s) = (\<lambda>_. None))"
proof -
  obtain d where d: "map_of (all_models s) app_label = Some d"
    using all_models_at_Some [OF assms] by blast
  have t: "all_models_touch app_label s = s"
    by (rule all_models_touch_present [OF d])
  have k: "model_name m \<in> set (od_keys (all_models_at app_label s))"
    using assms by (metis domI dom_map_of_conv_image_fst od_keys_def set_map)
  show ?thesis
    using assms k
    by (auto simp: register_model_def Let_def t all_models_at_od_set map_of_od_set
                   od_keys_od_set_present)
qed

theorem register_model_collision_witness:
  "map_of (all_models_at ''a'' registry_populated) (model_name model_a_pyc) = Some model_a
   \<and> splitext_root (module_file model_a_pyc) = splitext_root (module_file model_a)
   \<and> register_model ''a'' model_a_pyc registry_populated = registry_populated
   \<and> map_of (all_models_at ''a'' registry_populated) (model_name model_a_other) = Some model_a
   \<and> splitext_root (module_file model_a_other) \<noteq> splitext_root (module_file model_a)
   \<and> map_of (all_models_at ''a'' (register_model ''a'' model_a_other registry_populated))
        ''author'' = Some model_a_other"
  using register_model_collision [of "''a''" registry_populated model_a_pyc model_a]
        register_model_collision [of "''a''" registry_populated model_a_other model_a]
  by (simp add: example_defs model_a_pyc_def model_a_other_def)

text \<open>
  The claim as the spec states it, that the model registered first stays when the files
  differ, fails: registering \<open>author\<close> again from another file replaces the first model.
\<close>

theorem register_model_first_wins_counterexample:
  "map_of (all_models_at ''a'' registry_populated) (model_name model_a_other) = Some model_a
   \<and> splitext_root (module_file model_a_other) \<noteq> splitext_root (module_file model_a)
   \<and> map_of (all_models_at ''a'' (register_model ''a'' model_a_other registry_populated))
        (model_name model_a_other) \<noteq> Some model_a"
  by (simp add: example_defs model_a_pyc_def model_a_other_def)

text \<open>
  C3. On the master registry, with \<open>only_installed\<close> at its default \<open>True\<close>: once the
  population has succeeded, if the label belongs to an installed application whose name
  is not in the \<open>available_apps\<close> that are set, \<open>get_model\<close> raises \<open>UnavailableApp\<close>.
  Nothing is assumed about \<open>all_models\<close>: the check comes before the lookup of the model,
  so the call raises also when no model of that name exists, where a lookup would have
  returned \<open>None\<close>.
\<close>

theorem get_model_unavailable_first:
  assumes "master s"
      and "populate_models e s = (Ok (), s1)"
      and "map_of (app_configs s1) app_label = Some app_config"
      and "available_apps s1 = Some A"
      and "name app_config \<notin> A"
  shows "get_model e app_label mname True s = (Raise (UnavailableApp app_label), s1)"
  using assms by (simp add: get_model_def)

theorem get_model_unavailable_first_witness:
  "master registry_only_a
   \<and> populate_models env_none registry_only_a = (Ok (), registry_only_a)
   \<and> map_of (app_configs registry_only_a) ''b'' = Some app_b
   \<and> available_apps registry_only_a = Some {''proj.a''}
   \<and> name app_b \<notin> {''proj.a''}
   \<and> map_of (all_models_at ''b'' registry_only_a) (lower ''anything'') = None
   \<and> get_model env_none ''b'' ''anything'' True registry_only_a
        = (Raise (UnavailableApp ''b''), registry_only_a)"
  using get_model_unavailable_first [of registry_only_a env_none registry_only_a "''b''" app_b
          "{''proj.a''}" "''anything''"]
  by (simp add: registry_only_a_def example_defs lower_def lower_char_def)

text \<open>
  C10. When \<open>only_installed\<close> is false, passed so or forced because the registry is not
  the master, and the population has succeeded: \<open>get_model\<close> returns what
  \<open>all_models[app_label]\<close> holds under the lowercased name, whatever \<open>available_apps\<close>
  is, and so never raises \<open>UnavailableApp\<close>; \<open>get_models\<close> returns the list cached
  under its key as it is, and on a miss the list it computes and stores: the models of
  every dictionary of \<open>all_models\<close>, or of the one of the module's label, that pass the
  three flags, with no filtering by \<open>available_apps\<close>. Both results are the same under
  any other value of \<open>available_apps\<close> for which the population leaves the same
  \<open>all_models\<close>.
\<close>

theorem only_installed_false_bypasses_availability:
  assumes oi: "\<not> only_installed \<or> \<not> master s"
      and p: "populate_models e s = (Ok (), s1)"
  shows "get_model e app_label mname only_installed s
           = (Ok (map_of (all_models_at app_label s1) (lower mname)),
              all_models_touch app_label s1)
       \<and> (\<forall>l. get_models_cache s (app_mod, iac, idf, False, isw) = Some l \<longrightarrow>
             get_models e app_mod iac idf only_installed isw s = (Ok l, s))
       \<and> (\<forall>l s'. get_models e app_mod iac idf only_installed isw s = (Ok l, s') \<longrightarrow>
             get_models_cache s' (app_mod, iac, idf, False, isw) = Some l)
       \<and> (get_models_cache s (app_mod, iac, idf, False, isw) = None \<longrightarrow>
             get_models e app_mod iac idf only_installed isw s
               = (case model_dicts app_mod False s1 of
                    (Raise x, s2) \<Rightarrow> (Raise x, s2)
                  | (Ok dicts, s2) \<Rightarrow>
                      (Ok (collect_models iac idf isw dicts),
                       s2\<lparr>get_models_cache := (get_models_cache s2)
                            ((app_mod, iac, idf, False, isw) \<mapsto> collect_models iac idf isw dicts)\<rparr>)))
       \<and> (get_models_cache s (app_mod, iac, idf, False, isw) = None \<longrightarrow>
             fst (get_models e app_mod iac idf only_installed isw s)
               = (case app_mod of
                    None \<Rightarrow>
                      Ok (concat (map (\<lambda>d. filter (keep_model iac idf isw) (map snd d))
                                   (map snd (all_models s1))))
                  | Some mod_name \<Rightarrow>
                      (case rev (split_dot mod_name) of
                         _ # label_of_mod # _ \<Rightarrow>
                           Ok (filter (keep_model iac idf isw)
                                 (map snd (case map_of (all_models s1) label_of_mod of
                                             None \<Rightarrow> [] | Some d \<Rightarrow> d)))
                       | _ \<Rightarrow> Raise IndexError)))
       \<and> (\<forall>av t1. populate_models e (s\<lparr>available_apps := av\<rparr>) = (Ok (), t1)
                    \<and> all_models t1 = all_models s1 \<longrightarrow>
             fst (get_models e app_mod iac idf only_installed isw (s\<lparr>available_apps := av\<rparr>))
               = fst (get_models e app_mod iac idf only_installed isw s)
           \<and> fst (get_model e app_label mname only_installed (s\<lparr>available_apps := av\<rparr>))
               = fst (get_model e app_label mname only_installed s))"
proof -
  have c1: "get_model e app_label mname only_installed s
           = (Ok (map_of (all_models_at app_label s1) (lower mname)),
              all_models_touch app_label s1)"
    using oi p by (auto simp: get_model_def Let_def)
  have c2: "\<forall>l. get_models_cache s (app_mod, iac, idf, False, isw) = Some l \<longrightarrow>
             get_models e app_mod iac idf only_installed isw s = (Ok l, s)"
    using oi by (auto simp: get_models_def cache_lookup_def Let_def split: option.splits)
  have c4: "get_models_cache s (app_mod, iac, idf, False, isw) = None \<longrightarrow>
             get_models e app_mod iac idf only_installed isw s
               = (case model_dicts app_mod False s1 of
                    (Raise x, s2) \<Rightarrow> (Raise x, s2)
                  | (Ok dicts, s2) \<Rightarrow>
                      (Ok (collect_models iac idf isw dicts),
                       s2\<lparr>get_models_cache := (get_models_cache s2)
                            ((app_mod, iac, idf, False, isw) \<mapsto> collect_models iac idf isw dicts)\<rparr>))"
    using oi p
    by (auto simp: get_models_def cache_lookup_def Let_def
             split: option.splits prod.splits result.splits)
  have c3: "\<forall>l s'. get_models e app_mod iac idf only_installed isw s = (Ok l, s') \<longrightarrow>
             get_models_cache s' (app_mod, iac, idf, False, isw) = Some l"
    using oi p
    by (auto simp: get_models_def cache_lookup_def Let_def
             split: option.splits prod.splits result.splits)
  have md: "fst (model_dicts app_mod False s1)
              = (case app_mod of
                   None \<Rightarrow> Ok (map snd (all_models s1))
                 | Some mod_name \<Rightarrow>
                     (case rev (split_dot mod_name) of
                        _ # label_of_mod # _ \<Rightarrow>
                          Ok [case map_of (all_models s1) label_of_mod of
                                None \<Rightarrow> [] | Some d \<Rightarrow> d]
                      | _ \<Rightarrow> Raise IndexError))"
    by (auto simp: model_dicts_def all_models_at_def od_values_def
             split: option.splits list.splits)
  have c5: "get_models_cache s (app_mod, iac, idf, False, isw) = None \<longrightarrow>
             fst (get_models e app_mod iac idf only_installed isw s)
               = (case app_mod of
                    None \<Rightarrow>
                      Ok (concat (map (\<lambda>d. filter (keep_model iac idf isw) (map snd d))
                                   (map snd (all_models s1))))
                  | Some mod_name \<Rightarrow>
                      (case rev (split_dot mod_name) of
                         _ # label_of_mod # _ \<Rightarrow>
                           Ok (filter (keep_model iac idf isw)
                                 (map snd (case map_of (all_models s1) label_of_mod of
                                             None \<Rightarrow> [] | Some d \<Rightarrow> d)))
                       | _ \<Rightarrow> Raise IndexError))"
  proof
    assume n: "get_models_cache s (app_mod, iac, idf, False, isw) = None"
    obtain r2 s2 where d: "model_dicts app_mod False s1 = (r2, s2)"
      by (cases "model_dicts app_mod False s1")
    have r2: "r2 = fst (model_dicts app_mod False s1)" using d by simp
    from c4 n d have "fst (get_models e app_mod iac idf only_installed isw s)
        = (case r2 of Raise x \<Rightarrow> Raise x | Ok dicts \<Rightarrow> Ok (collect_models iac idf isw dicts))"
      by (simp split: result.splits)
    also have "\<dots> = (case app_mod of
                    None \<Rightarrow>
                      Ok (concat (map (\<lambda>d. filter (keep_model iac idf isw) (map snd d))
                                   (map snd (all_models s1))))
                  | Some mod_name \<Rightarrow>
                      (case rev (split_dot mod_name) of
                         _ # label_of_mod # _ \<Rightarrow>
                           Ok (filter (keep_model iac idf isw)
                                 (map snd (case map_of (all_models s1) label_of_mod of
                                             None \<Rightarrow> [] | Some d \<Rightarrow> d)))
                       | _ \<Rightarrow> Raise IndexError))"
      unfolding r2 md
      by (simp add: collect_models_def od_values_def split: option.splits list.splits)
    finally show "fst (get_models e app_mod iac idf only_installed isw s)
               = (case app_mod of
                    None \<Rightarrow>
                      Ok (concat (map (\<lambda>d. filter (keep_model iac idf isw) (map snd d))
                                   (map snd (all_models s1))))
                  | Some mod_name \<Rightarrow>
                      (case rev (split_dot mod_name) of
                         _ # label_of_mod # _ \<Rightarrow>
                           Ok (filter (keep_model iac idf isw)
                                 (map snd (case map_of (all_models s1) label_of_mod of
                                             None \<Rightarrow> [] | Some d \<Rightarrow> d)))
                       | _ \<Rightarrow> Raise IndexError))" .
  qed
  have c6: "\<forall>av t1. populate_models e (s\<lparr>available_apps := av\<rparr>) = (Ok (), t1)
                    \<and> all_models t1 = all_models s1 \<longrightarrow>
             fst (get_models e app_mod iac idf only_installed isw (s\<lparr>available_apps := av\<rparr>))
               = fst (get_models e app_mod iac idf only_installed isw s)
           \<and> fst (get_model e app_label mname only_installed (s\<lparr>available_apps := av\<rparr>))
               = fst (get_model e app_label mname only_installed s)"
  proof (intro allI impI, elim conjE)
    fix av t1
    assume q: "populate_models e (s\<lparr>available_apps := av\<rparr>) = (Ok (), t1)"
       and a: "all_models t1 = all_models s1"
    have md2: "fst (model_dicts app_mod False t1) = fst (model_dicts app_mod False s1)"
      by (rule model_dicts_all_models [OF a])
    have am: "all_models_at app_label t1 = all_models_at app_label s1"
      using a by (simp add: all_models_at_def)
    have g: "fst (get_models e app_mod iac idf only_installed isw (s\<lparr>available_apps := av\<rparr>))
               = fst (get_models e app_mod iac idf only_installed isw s)"
      using oi p q md2
      by (cases "model_dicts app_mod False t1"; cases "model_dicts app_mod False s1")
         (auto simp: get_models_def cache_lookup_def Let_def
               split: option.splits result.splits)
    have m: "fst (get_model e app_label mname only_installed (s\<lparr>available_apps := av\<rparr>))
               = fst (get_model e app_label mname only_installed s)"
      using oi p q am by (auto simp: get_model_def Let_def)
    from g m show "fst (get_models e app_mod iac idf only_installed isw (s\<lparr>available_apps := av\<rparr>))
               = fst (get_models e app_mod iac idf only_installed isw s)
           \<and> fst (get_model e app_label mname only_installed (s\<lparr>available_apps := av\<rparr>))
               = fst (get_model e app_label mname only_installed s)" by simp
  qed
  from c1 c2 c3 c4 c5 c6 show ?thesis by blast
qed

theorem only_installed_false_bypasses_availability_witness:
  "populate_models env_none registry_only_a = (Ok (), registry_only_a)
   \<and> available_apps registry_only_a = Some {''proj.a''}
   \<and> get_model env_none ''b'' ''Book'' False registry_only_a = (Ok (Some model_b), registry_only_a)
   \<and> fst (get_models env_none None False False False False registry_only_a)
       = Ok [model_a, model_b]
   \<and> fst (get_models env_none (Some ''proj.b.models'') False False False False registry_only_a)
       = Ok [model_b]
   \<and> populate_models env_none (registry_only_a\<lparr>available_apps := Some {}\<rparr>)
       = (Ok (), registry_only_a\<lparr>available_apps := Some {}\<rparr>)
   \<and> fst (get_models env_none (Some ''proj.b.models'') False False False False
            (registry_only_a\<lparr>available_apps := Some {}\<rparr>))
       = Ok [model_b]
   \<and> fst (get_model env_none ''b'' ''Book'' False (registry_only_a\<lparr>available_apps := Some {}\<rparr>))
       = Ok (Some model_b)"
  using only_installed_false_bypasses_availability [of False registry_only_a env_none
          registry_only_a "''b''" "''Book''" None False False False]
        only_installed_false_bypasses_availability [of False registry_only_a env_none
          registry_only_a "''b''" "''Book''" "Some ''proj.b.models''" False False False]
  by (simp add: registry_only_a_def example_defs lower_def lower_char_def get_model_def
        get_models_def cache_lookup_def model_dicts_def collect_models_def keep_model_def
        split_dot_def)

text \<open>
  C8. \<open>set_available_apps(names)\<close> raises the runtime error, with the registry as it
  was, when \<open>available_apps\<close> is set already. Otherwise, once \<open>populate_apps\<close> has
  succeeded: when the names are not a subset of the names of the installed applications,
  it raises \<open>ValueError\<close> with the extra names, and \<open>available_apps\<close> is still
  \<open>None\<close>; when they are, \<open>available_apps\<close> becomes the set of the names, and
  \<open>unset_available_apps\<close> makes it \<open>None\<close> again.
\<close>

theorem set_available_apps_checks:
  "(available_apps s = Some A \<longrightarrow>
      set_available_apps e names s
        = (Raise (RuntimeError ''set_available_apps() may be called only once in a row''), s))
   \<and> (available_apps s = None \<and> populate_apps e s = (Ok (), s1) \<longrightarrow>
        available_apps s1 = None
      \<and> (\<not> set names \<subseteq> name ` set (od_values (app_configs s1)) \<longrightarrow>
            set_available_apps e names s
              = (Raise (ValueError (set names - name ` set (od_values (app_configs s1)))), s1))
      \<and> (set names \<subseteq> name ` set (od_values (app_configs s1)) \<longrightarrow>
            set_available_apps e names s = (Ok (), s1\<lparr>available_apps := Some (set names)\<rparr>)
          \<and> available_apps (snd (set_available_apps e names s)) = Some (set names)
          \<and> available_apps (unset_available_apps (snd (set_available_apps e names s))) = None))"
  using populate_apps_available [of e s "Ok ()" s1]
  by (auto simp: set_available_apps_def get_app_configs_def unset_available_apps_def Let_def)

theorem set_available_apps_checks_witness:
  "available_apps registry_only_a = Some {''proj.a''}
   \<and> set_available_apps env_none [''proj.b''] registry_only_a
       = (Raise (RuntimeError ''set_available_apps() may be called only once in a row''),
          registry_only_a)
   \<and> available_apps registry_populated = None
   \<and> populate_apps env_none registry_populated = (Ok (), registry_populated)
   \<and> \<not> set [''proj.a'', ''proj.zzz''] \<subseteq> name ` set (od_values (app_configs registry_populated))
   \<and> set_available_apps env_none [''proj.a'', ''proj.zzz''] registry_populated
       = (Raise (ValueError {''proj.zzz''}), registry_populated)
   \<and> set [''proj.a''] \<subseteq> name ` set (od_values (app_configs registry_populated))
   \<and> set_available_apps env_none [''proj.a''] registry_populated = (Ok (), registry_only_a)"
  using set_available_apps_checks [of registry_only_a "{''proj.a''}" env_none "[''proj.b'']"
          registry_only_a]
        set_available_apps_checks [of registry_populated "{}" env_none "[''proj.a'', ''proj.zzz'']"
          registry_populated]
        set_available_apps_checks [of registry_populated "{}" env_none "[''proj.a'']"
          registry_populated]
  by (auto simp: registry_only_a_def example_defs)

text \<open>
  C9, as the code has it. The wrapped work is any function that leaves \<open>app_configs\<close>
  and \<open>available_apps\<close> as it finds them, and may return or raise; every key of
  \<open>app_configs\<close> is the label of its entry, as \<open>populate_apps\<close> makes it. On both
  exit paths the teardown runs and the outcome of the work is passed on. \<open>_without_app\<close>
  puts the removed \<open>AppConfig\<close> back, so the mapping from labels to configurations is
  the prior one; the entry is put back at the end of the insertion order, so the ordered
  dictionary is the prior one only when nothing was removed or the removed entry was the
  last. \<open>_with_app\<close>, once its setup has succeeded, leaves \<open>app_configs\<close> exactly as
  before; when the application was registered already, \<open>available_apps\<close> is as before,
  otherwise it is the prior set without the name of the application. \<open>_empty\<close> puts the
  prior \<open>app_configs\<close> back exactly, and neither its setup nor its teardown touches
  \<open>all_models\<close>.
\<close>

theorem scoped_contexts_restore:
  assumes lab: "\<forall>kc \<in> set (app_configs s). label (snd kc) = fst kc"
      and fr: "\<forall>t. app_configs (snd (body t)) = app_configs t
                 \<and> available_apps (snd (body t)) = available_apps t"
  shows "fst (without_app app_name body s) = fst (body (snd (begin_without_app app_name s)))
       \<and> map_of (app_configs (snd (without_app app_name body s))) = map_of (app_configs s)
       \<and> app_configs (snd (without_app app_name body s)) =
           (case map_of (app_configs s) (rpartition_tail app_name) of
              None \<Rightarrow> app_configs s
            | Some c \<Rightarrow> od_del (rpartition_tail app_name) (app_configs s)
                          @ [(rpartition_tail app_name, c)])
       \<and> (\<forall>tok s1. begin_with_app e app_name s = (Ok tok, s1) \<longrightarrow>
            fst (with_app e app_name body s) = fst (body s1)
          \<and> app_configs (snd (with_app e app_name body s)) = app_configs s
          \<and> (tok = None \<longrightarrow>
               available_apps (snd (with_app e app_name body s)) = available_apps s)
          \<and> (\<forall>c. tok = Some c \<longrightarrow>
               available_apps (snd (with_app e app_name body s))
                 = map_option (\<lambda>A. A - {name c}) (available_apps s)))
       \<and> fst (empty_apps body s) = fst (body (snd (begin_empty s)))
       \<and> app_configs (snd (empty_apps body s)) = app_configs s
       \<and> all_models (snd (begin_empty s)) = all_models s
       \<and> all_models (snd (empty_apps body s)) = all_models (snd (body (snd (begin_empty s))))"
proof -
  have fr1: "\<forall>t. app_configs (snd (body t)) = app_configs t" using fr by simp
  have fr2: "\<And>t. available_apps (snd (body t)) = available_apps t" using fr by simp
  have w: "app_configs (snd (without_app app_name body s)) =
           (case map_of (app_configs s) (rpartition_tail app_name) of
              None \<Rightarrow> app_configs s
            | Some c \<Rightarrow> od_del (rpartition_tail app_name) (app_configs s)
                          @ [(rpartition_tail app_name, c)])"
    by (rule without_app_restores [OF lab fr1])
  have w2: "map_of (app_configs (snd (without_app app_name body s))) = map_of (app_configs s)"
    unfolding w by (simp add: map_of_od_del_append del: map_of_append split: option.splits)
  have w0: "fst (without_app app_name body s) = fst (body (snd (begin_without_app app_name s)))"
    by (simp add: without_app_def Let_def)
  have e: "fst (empty_apps body s) = fst (body (snd (begin_empty s)))
       \<and> app_configs (snd (empty_apps body s)) = app_configs s
       \<and> all_models (snd (begin_empty s)) = all_models s
       \<and> all_models (snd (empty_apps body s)) = all_models (snd (body (snd (begin_empty s))))"
    by (simp add: empty_apps_def begin_empty_def end_empty_def Let_def)
  have wa: "\<forall>tok s1. begin_with_app e app_name s = (Ok tok, s1) \<longrightarrow>
            fst (with_app e app_name body s) = fst (body s1)
          \<and> app_configs (snd (with_app e app_name body s)) = app_configs s
          \<and> (tok = None \<longrightarrow>
               available_apps (snd (with_app e app_name body s)) = available_apps s)
          \<and> (\<forall>c. tok = Some c \<longrightarrow>
               available_apps (snd (with_app e app_name body s))
                 = map_option (\<lambda>A. A - {name c}) (available_apps s))"
  proof (intro allI impI)
    fix tok s1
    assume b: "begin_with_app e app_name s = (Ok tok, s1)"
    show "fst (with_app e app_name body s) = fst (body s1)
          \<and> app_configs (snd (with_app e app_name body s)) = app_configs s
          \<and> (tok = None \<longrightarrow>
               available_apps (snd (with_app e app_name body s)) = available_apps s)
          \<and> (\<forall>c. tok = Some c \<longrightarrow>
               available_apps (snd (with_app e app_name body s))
                 = map_option (\<lambda>A. A - {name c}) (available_apps s))"
    proof (cases tok)
      case None
      with b have "app_configs s1 = app_configs s \<and> available_apps s1 = available_apps s"
        by (auto simp: begin_with_app_def Let_def
                 split: sum.splits if_splits prod.splits result.splits
                 dest: import_models_call_app_configs)
      with b None show ?thesis
        by (simp add: with_app_def end_with_app_def fr1 fr2)
    next
      case (Some c)
      with b have s1: "label c \<notin> set (od_keys (app_configs s))
          \<and> app_configs s1 = od_set (label c) c (app_configs s)
          \<and> available_apps s1 = map_option (insert (name c)) (available_apps s)"
        by (auto simp: begin_with_app_def Let_def
                 split: sum.splits if_splits prod.splits result.splits
                 dest: import_models_call_app_configs)
      then have k: "label c \<in> set (od_keys (od_set (label c) c (app_configs s)))"
        by (simp add: od_keys_od_set_absent)
      have m: "map_option (\<lambda>A. A - {name c}) (map_option (insert (name c)) (available_apps s))
                 = map_option (\<lambda>A. A - {name c}) (available_apps s)"
        by (cases "available_apps s") auto
      from b Some s1 k show ?thesis
        by (simp add: with_app_def end_with_app_def fr1 fr2 od_del_od_set_absent m)
    qed
  qed
  from w0 w2 w wa e show ?thesis by blast
qed

theorem scoped_contexts_restore_witness:
  "fst (without_app ''proj.b'' body_raises registry_ab) = Raise (OtherException ''boom'')
   \<and> app_configs (snd (without_app ''proj.b'' body_raises registry_ab)) = app_configs registry_ab
   \<and> app_configs (snd (without_app ''proj.a'' body_raises registry_ab))
       = [(''b'', app_b), (''a'', app_a)]
   \<and> begin_with_app env_cycle ''proj.c'' registry_only_a
       = (Ok (Some app_c), snd (begin_with_app env_cycle ''proj.c'' registry_only_a))
   \<and> app_configs (snd (begin_with_app env_cycle ''proj.c'' registry_only_a))
       = [(''a'', app_a), (''b'', app_b), (''c'', app_c)]
   \<and> available_apps (snd (begin_with_app env_cycle ''proj.c'' registry_only_a))
       = Some {''proj.a'', ''proj.c''}
   \<and> fst (with_app env_cycle ''proj.c'' body_raises registry_only_a)
       = Raise (OtherException ''boom'')
   \<and> app_configs (snd (with_app env_cycle ''proj.c'' body_raises registry_only_a))
       = app_configs registry_only_a
   \<and> available_apps (snd (with_app env_cycle ''proj.c'' body_raises registry_only_a))
       = Some {''proj.a''}
   \<and> fst (empty_apps body_raises registry_ab) = Raise (OtherException ''boom'')
   \<and> app_configs (snd (empty_apps body_raises registry_ab)) = app_configs registry_ab"
  using scoped_contexts_restore [of registry_ab body_raises "''proj.b''" env_cycle]
        scoped_contexts_restore [of registry_ab body_raises "''proj.a''" env_cycle]
        scoped_contexts_restore [of registry_only_a body_raises "''proj.c''" env_cycle]
  by (auto simp: registry_only_a_def example_defs body_raises_def app_c_def
        begin_with_app_def begin_without_app_def begin_empty_def without_app_def
        end_without_app_def with_app_def end_with_app_def empty_apps_def end_empty_def)

text \<open>
  The claim as the spec states it, that after \<open>_without_app\<close> the insertion order of
  \<open>app_configs\<close> equals the prior one, fails: removing the first of two applications
  puts it back behind the second.
\<close>

theorem without_app_order_counterexample:
  "map_of (app_configs registry_ab) (rpartition_tail ''proj.a'') = Some app_a
   \<and> fst (without_app ''proj.a'' body_ok registry_ab) = Ok ()
   \<and> od_keys (app_configs registry_ab) = [''a'', ''b'']
   \<and> od_keys (app_configs (snd (without_app ''proj.a'' body_ok registry_ab))) = [''b'', ''a'']
   \<and> app_configs (snd (without_app ''proj.a'' body_ok registry_ab)) \<noteq> app_configs registry_ab"
  by (simp add: example_defs body_ok_def without_app_def begin_without_app_def
        end_without_app_def)

text \<open>
  C5. On the master registry, for every parameter tuple with \<open>only_installed\<close> true: when
  \<open>get_models\<close> returns a list, the cache holds a list \<open>u\<close> under the key of the tuple
  and \<open>available_apps\<close> is as before. Either the registry is as before (the list was
  served from the cache), or the population ran and \<open>u\<close> was stored by this call: then
  \<open>u\<close> is the list of the models of the installed applications that pass the three
  flags, in which \<open>available_apps\<close> has no part. The list returned is \<open>u\<close> when no
  restriction is set, and \<open>u\<close> filtered to the models whose owning application has its
  name in \<open>available_apps\<close> when one is. From then on, whatever the environment: with
  the restriction unset the same call returns \<open>u\<close>, and with any restriction set it
  returns \<open>u\<close> filtered by that restriction (the owner of every model of \<open>u\<close> being
  installed); neither call changes the cache.
\<close>

theorem get_models_available_filter:
  assumes m: "master s"
      and g: "get_models e app_mod iac idf True isw s = (Ok l, s')"
  shows "\<exists>u. get_models_cache s' (app_mod, iac, idf, True, isw) = Some u
           \<and> available_apps s' = available_apps s
           \<and> (s' = s \<or>
               (\<exists>s1. populate_models e s = (Ok (), s1)
                  \<and> s' = s1\<lparr>get_models_cache :=
                             (get_models_cache s1)((app_mod, iac, idf, True, isw) \<mapsto> u)\<rparr>
                  \<and> Ok u =
                      (case app_mod of
                         None \<Rightarrow>
                           Ok (concat (map (\<lambda>c. filter (keep_model iac idf isw)
                                                  (map snd (config_models s1 c)))
                                        (map snd (app_configs s1))))
                       | Some mod_name \<Rightarrow>
                           (case rev (split_dot mod_name) of
                              _ # label_of_mod # _ \<Rightarrow>
                                Ok (case map_of (app_configs s1) label_of_mod of
                                      Some c \<Rightarrow> filter (keep_model iac idf isw)
                                                 (map snd (config_models s1 c))
                                    | None \<Rightarrow> [])
                            | _ \<Rightarrow> Raise IndexError))))
           \<and> l = (case available_apps s of
                      None \<Rightarrow> u
                    | Some A \<Rightarrow> filter (owner_available s' A) u)
           \<and> (\<forall>e'. get_models e' app_mod iac idf True isw (s'\<lparr>available_apps := None\<rparr>)
                   = (Ok u, s'\<lparr>available_apps := None\<rparr>))
           \<and> (\<forall>e' A'. (\<forall>m \<in> set u. map_of (app_configs s') (meta_app_label m) \<noteq> None) \<longrightarrow>
                  get_models e' app_mod iac idf True isw (s'\<lparr>available_apps := Some A'\<rparr>)
                   = (Ok (filter (owner_available s' A') u), s'\<lparr>available_apps := Some A'\<rparr>))"
proof -
  from get_models_installed_core [OF m g]
  obtain u where u: "get_models_cache s' (app_mod, iac, idf, True, isw) = Some u"
      and av: "available_apps s' = available_apps s" and ms: "master s'"
      and st: "s' = s \<or>
               (\<exists>s1. populate_models e s = (Ok (), s1)
                  \<and> s' = s1\<lparr>get_models_cache :=
                             (get_models_cache s1)((app_mod, iac, idf, True, isw) \<mapsto> u)\<rparr>
                  \<and> Ok u =
                      (case app_mod of
                         None \<Rightarrow>
                           Ok (concat (map (\<lambda>c. filter (keep_model iac idf isw)
                                                  (map snd (config_models s1 c)))
                                        (map snd (app_configs s1))))
                       | Some mod_name \<Rightarrow>
                           (case rev (split_dot mod_name) of
                              _ # label_of_mod # _ \<Rightarrow>
                                Ok (case map_of (app_configs s1) label_of_mod of
                                      Some c \<Rightarrow> filter (keep_model iac idf isw)
                                                 (map snd (config_models s1 c))
                                    | None \<Rightarrow> [])
                            | _ \<Rightarrow> Raise IndexError)))"
      and c: "(case available_apps s of None \<Rightarrow> l = u
               | Some A \<Rightarrow> restrict_available s' A u = Ok l)"
    by blast
  have c': "l = (case available_apps s of
                      None \<Rightarrow> u
                    | Some A \<Rightarrow> filter (owner_available s' A) u)"
    using c by (auto split: option.splits dest: restrict_available_filter)
  have t1: "\<forall>e'. get_models e' app_mod iac idf True isw (s'\<lparr>available_apps := None\<rparr>)
                   = (Ok u, s'\<lparr>available_apps := None\<rparr>)"
  proof
    fix e'
    show "get_models e' app_mod iac idf True isw (s'\<lparr>available_apps := None\<rparr>)
                   = (Ok u, s'\<lparr>available_apps := None\<rparr>)"
      using get_models_hit [of "s'\<lparr>available_apps := None\<rparr>" app_mod iac idf isw u e'] ms u
      by simp
  qed
  have t2: "\<forall>e' A'. (\<forall>m \<in> set u. map_of (app_configs s') (meta_app_label m) \<noteq> None) \<longrightarrow>
                  get_models e' app_mod iac idf True isw (s'\<lparr>available_apps := Some A'\<rparr>)
                   = (Ok (filter (owner_available s' A') u), s'\<lparr>available_apps := Some A'\<rparr>)"
  proof (intro allI impI)
    fix e' A'
    assume k: "\<forall>m \<in> set u. map_of (app_configs s') (meta_app_label m) \<noteq> None"
    have r: "restrict_available s' A' u = Ok (filter (owner_available s' A') u)"
      by (rule restrict_available_known [OF k])
    show "get_models e' app_mod iac idf True isw (s'\<lparr>available_apps := Some A'\<rparr>)
                   = (Ok (filter (owner_available s' A') u), s'\<lparr>available_apps := Some A'\<rparr>)"
      using get_models_hit [of "s'\<lparr>available_apps := Some A'\<rparr>" app_mod iac idf isw u e'] ms u r
      by simp
  qed
  from u av st c' t1 t2 show ?thesis by blast
qed

theorem get_models_available_filter_witness:
  "master registry_only_a
   \<and> available_apps registry_only_a = Some {''proj.a''}
   \<and> get_models env_none None False False True False registry_only_a
       = (Ok [model_a], registry_only_a_cached)
   \<and> get_models_cache registry_only_a_cached (None, False, False, True, False)
       = Some [model_a, model_b]
   \<and> filter (owner_available registry_only_a_cached {''proj.a''}) [model_a, model_b] = [model_a]
   \<and> get_models env_none None False False True False
         (registry_only_a_cached\<lparr>available_apps := None\<rparr>)
       = (Ok [model_a, model_b], registry_only_a_cached\<lparr>available_apps := None\<rparr>)
   \<and> get_models env_none None False False True False
         (registry_only_a_cached\<lparr>available_apps := Some {''proj.b''}\<rparr>)
       = (Ok [model_b], registry_only_a_cached\<lparr>available_apps := Some {''proj.b''}\<rparr>)"
  using get_models_available_filter [of registry_only_a env_none None False False False
          "[model_a]" registry_only_a_cached]
  by (simp add: registry_only_a_cached_def registry_only_a_def example_defs get_models_def
        cache_lookup_def model_dicts_def collect_models_def keep_model_def config_models_def
        owner_available_def)






end
